theory Spec2Isabelle
  imports Main "HOL-Library.Sublist"
begin

section \<open>Strings\<close>

text \<open>
  Go strings are byte sequences; they are modelled as \<^typ>\<open>string\<close> (a list of
  8-bit characters). The functions of Go's \<^verbatim>\<open>strings\<close> package that the source calls
  are written out below under their Go names.
\<close>

abbreviation LF :: char where
  "LF \<equiv> CHR 0x0A"

abbreviation CR :: char where
  "CR \<equiv> CHR 0x0D"

abbreviation backtick :: char where
  "backtick \<equiv> CHR 0x60"

definition HasPrefix :: "string \<Rightarrow> string \<Rightarrow> bool" where
  "HasPrefix s p = (take (length p) s = p)"

definition HasSuffix :: "string \<Rightarrow> string \<Rightarrow> bool" where
  "HasSuffix s t = (length t \<le> length s \<and> drop (length s - length t) s = t)"

fun Contains :: "string \<Rightarrow> string \<Rightarrow> bool" where
  "Contains [] sub = (sub = [])"
| "Contains (c # cs) sub = (HasPrefix (c # cs) sub \<or> Contains cs sub)"

definition Repeat :: "string \<Rightarrow> nat \<Rightarrow> string" where
  "Repeat s n = concat (replicate n s)"


text \<open>
  \<^verbatim>\<open>strings.ToLower\<close>. Go first scans the bytes: when every byte is below
  \<^verbatim>\<open>utf8.RuneSelf\<close> (0x80) the string is ASCII and the letters \<^verbatim>\<open>A\<close>..\<^verbatim>\<open>Z\<close> are mapped to
  \<^verbatim>\<open>a\<close>..\<^verbatim>\<open>z\<close> byte by byte; otherwise it returns \<^verbatim>\<open>Map(unicode.ToLower, s)\<close>, which
  maps every rune by the Unicode tables of the standard library (U+0130 and U+212A,
  for example, become the ASCII letters \<^verbatim>\<open>i\<close> and \<^verbatim>\<open>k\<close>). Those tables are not modelled:
  \<^verbatim>\<open>Map(unicode.ToLower, s)\<close> is the parameter \<open>Map_unicode_ToLower\<close>, and every theorem
  below holds for every function in its place.
\<close>

definition isASCII :: "string \<Rightarrow> bool" where
  "isASCII s = list_all (\<lambda>c. \<not> digit7 c) s"

definition toLower_char :: "char \<Rightarrow> char" where
  "toLower_char c =
     (case map_of (zip ''ABCDEFGHIJKLMNOPQRSTUVWXYZ'' ''abcdefghijklmnopqrstuvwxyz'') c of
        Some l \<Rightarrow> l
      | None \<Rightarrow> c)"

definition ToLower :: "(string \<Rightarrow> string) \<Rightarrow> string \<Rightarrow> string" where
  "ToLower Map_unicode_ToLower s =
     (if isASCII s then map toLower_char s else Map_unicode_ToLower s)"

text \<open>\<^verbatim>\<open>strings.ReplaceAll(code, "\r\n", "\n")\<close>: one pass, left to right.\<close>

fun ReplaceAll_CRLF_LF :: "string \<Rightarrow> string" where
  "ReplaceAll_CRLF_LF [] = []"
| "ReplaceAll_CRLF_LF [c] = [c]"
| "ReplaceAll_CRLF_LF (c # d # s) =
     (if c = CR \<and> d = LF then LF # ReplaceAll_CRLF_LF s else c # ReplaceAll_CRLF_LF (d # s))"

section \<open>The parsed document (golang.org/x/net/html) and selections (goquery)\<close>

text \<open>
  The parser and the selection library are external to the repository. What the source
  reads of them is modelled here: a node has a type, its data (the tag name of an
  element, the content of a text node), its attributes and its children in document
  order.
\<close>

datatype NodeType =
  ErrorNode | TextNode | DocumentNode | ElementNode | CommentNode | DoctypeNode | RawNode

datatype Attribute = Attribute (Namespace: string) (Key: string) (Val: string)

datatype Node = Node (Type: NodeType) (Data: string) (Attr: "Attribute list") (childNodes: "Node list")

text \<open>
  A \<^verbatim>\<open>*html.Node\<close> is a position in the document: the list of child indices that leads
  from the document's root to the node. Two pointers of one document are equal exactly
  when the paths are. \<open>node_at\<close> dereferences a pointer.
\<close>

type_synonym path = "nat list"

fun node_at :: "Node \<Rightarrow> path \<Rightarrow> Node option" where
  "node_at n [] = Some n"
| "node_at n (i # p) = (if i < length (childNodes n) then node_at (childNodes n ! i) p else None)"

text \<open>
  A \<^verbatim>\<open>*goquery.Selection\<close>: the document and the selected nodes, in order. Every
  selection that goquery builds holds pointers to nodes of its document; the functions
  below skip a path that addresses nothing.
\<close>

record Selection =
  Doc :: Node
  Nodes :: "path list"

definition is_element :: "Node \<Rightarrow> path \<Rightarrow> bool" where
  "is_element doc p = (case node_at doc p of None \<Rightarrow> False | Some n \<Rightarrow> Type n = ElementNode)"

text \<open>A compiled tag selector such as \<^verbatim>\<open>"table"\<close> matches the elements of that tag name.\<close>

definition match_tag :: "Node \<Rightarrow> string \<Rightarrow> path \<Rightarrow> bool" where
  "match_tag doc tag p =
     (case node_at doc p of None \<Rightarrow> False | Some n \<Rightarrow> Type n = ElementNode \<and> Data n = tag)"

definition child_paths :: "Node \<Rightarrow> path \<Rightarrow> path list" where
  "child_paths doc p =
     (case node_at doc p of
        None \<Rightarrow> []
      | Some n \<Rightarrow> map (\<lambda>i. p @ [i]) [0..<length (childNodes n)])"

definition element_child_paths :: "Node \<Rightarrow> path \<Rightarrow> path list" where
  "element_child_paths doc p = filter (is_element doc) (child_paths doc p)"

text \<open>The ancestors of a node, the nearest first (the loop \<^verbatim>\<open>p = p.Parent\<close>).\<close>

definition ancestor_paths :: "path \<Rightarrow> path list" where
  "ancestor_paths p = map (\<lambda>k. take k p) (rev [0..<length p])"

text \<open>goquery's \<^verbatim>\<open>mapNodes\<close> collects the results for each node and drops repeated pointers.\<close>

fun appendWithoutDuplicates :: "path list \<Rightarrow> path list \<Rightarrow> path list" where
  "appendWithoutDuplicates target [] = target"
| "appendWithoutDuplicates target (n # ns) =
     appendWithoutDuplicates (if n \<in> set target then target else target @ [n]) ns"

definition mapNodes :: "path list \<Rightarrow> (path \<Rightarrow> path list) \<Rightarrow> path list" where
  "mapNodes nodes f = foldl (\<lambda>result n. appendWithoutDuplicates result (f n)) [] nodes"

definition Length :: "Selection \<Rightarrow> nat" where
  "Length s = length (Nodes s)"

definition Eq :: "Selection \<Rightarrow> nat \<Rightarrow> Selection" where
  "Eq s index = (if index \<ge> length (Nodes s) then s\<lparr>Nodes := []\<rparr> else s\<lparr>Nodes := [Nodes s ! index]\<rparr>)"

definition Each :: "Selection \<Rightarrow> Selection list" where
  "Each s = map (\<lambda>n. s\<lparr>Nodes := [n]\<rparr>) (Nodes s)"

text \<open>\<^verbatim>\<open>Contents\<close>: the children of every selected node, text and comment nodes included.\<close>

definition Contents :: "Selection \<Rightarrow> Selection" where
  "Contents s = s\<lparr>Nodes := mapNodes (Nodes s) (child_paths (Doc s))\<rparr>"

text \<open>\<^verbatim>\<open>Children\<close>: the element children of every selected node.\<close>

definition Children :: "Selection \<Rightarrow> Selection" where
  "Children s = s\<lparr>Nodes := mapNodes (Nodes s) (element_child_paths (Doc s))\<rparr>"

text \<open>\<^verbatim>\<open>Parent\<close>: the parent of every selected node, where it is an element.\<close>

definition getParentNodes :: "Node \<Rightarrow> path \<Rightarrow> path list" where
  "getParentNodes doc p = (if p \<noteq> [] \<and> is_element doc (butlast p) then [butlast p] else [])"

definition Parent :: "Selection \<Rightarrow> Selection" where
  "Parent s = s\<lparr>Nodes := mapNodes (Nodes s) (getParentNodes (Doc s))\<rparr>"

text \<open>
  \<^verbatim>\<open>Siblings\<close>: the element children of the parent of every selected node, the node
  itself left out. A parsed document's root is its document node, so every element has
  a parent; for the root itself the model returns no sibling.
\<close>

definition getSiblingNodes :: "Node \<Rightarrow> path \<Rightarrow> path list" where
  "getSiblingNodes doc p =
     (if p = [] then [] else filter (\<lambda>c. c \<noteq> p) (element_child_paths doc (butlast p)))"

definition Siblings :: "Selection \<Rightarrow> Selection" where
  "Siblings s = s\<lparr>Nodes := mapNodes (Nodes s) (getSiblingNodes (Doc s))\<rparr>"

text \<open>\<^verbatim>\<open>Is\<close> with a tag selector: some selected node matches.\<close>

definition Is :: "Selection \<Rightarrow> string \<Rightarrow> bool" where
  "Is s tag = (\<exists>p \<in> set (Nodes s). match_tag (Doc s) tag p)"

text \<open>
  \<^verbatim>\<open>Find\<close> with a tag selector: the matching descendants of every selected node, in
  document order. \<open>MatchAll tag p n\<close> lists the matches in the subtree \<open>n\<close> that sits at
  \<open>p\<close>, the node itself included.
\<close>

fun MatchAll :: "string \<Rightarrow> path \<Rightarrow> Node \<Rightarrow> path list"
  and MatchAll_children :: "string \<Rightarrow> path \<Rightarrow> nat \<Rightarrow> Node list \<Rightarrow> path list" where
  "MatchAll tag p (Node t d a cs) =
     (if t = ElementNode \<and> d = tag then [p] else []) @ MatchAll_children tag p 0 cs"
| "MatchAll_children tag p i [] = []"
| "MatchAll_children tag p i (c # cs) = MatchAll tag (p @ [i]) c @ MatchAll_children tag p (Suc i) cs"

definition findWithMatcher :: "Node \<Rightarrow> string \<Rightarrow> path \<Rightarrow> path list" where
  "findWithMatcher doc tag p =
     (case node_at doc p of
        None \<Rightarrow> []
      | Some n \<Rightarrow>
          concat (map (\<lambda>i. let c = childNodes n ! i in
                            if Type c = ElementNode then MatchAll tag (p @ [i]) c else [])
                      [0..<length (childNodes n)]))"

definition Find :: "Selection \<Rightarrow> string \<Rightarrow> Selection" where
  "Find s tag = s\<lparr>Nodes := mapNodes (Nodes s) (findWithMatcher (Doc s) tag)\<rparr>"

text \<open>\<^verbatim>\<open>ParentsFiltered\<close> with a tag selector: the element ancestors that match.\<close>

definition getParentsNodes :: "Node \<Rightarrow> path \<Rightarrow> path list" where
  "getParentsNodes doc p = filter (is_element doc) (ancestor_paths p)"

definition ParentsFiltered :: "Selection \<Rightarrow> string \<Rightarrow> Selection" where
  "ParentsFiltered s tag =
     s\<lparr>Nodes := filter (match_tag (Doc s) tag) (mapNodes (Nodes s) (getParentsNodes (Doc s)))\<rparr>"

text \<open>
  \<^verbatim>\<open>Get(index)\<close> indexes the slice of nodes and panics when the index is out of range.
\<close>

datatype panic = IndexOutOfRange

definition Get :: "Selection \<Rightarrow> nat \<Rightarrow> panic + path" where
  "Get s index = (if index < length (Nodes s) then Inr (Nodes s ! index) else Inl IndexOutOfRange)"

text \<open>\<^verbatim>\<open>goquery.NodeName\<close>: the name of the first selected node.\<close>

definition goquery_nodeName :: "Node \<Rightarrow> string" where
  "goquery_nodeName node =
     (case Type node of
        ElementNode \<Rightarrow> Data node
      | DoctypeNode \<Rightarrow> Data node
      | ErrorNode \<Rightarrow> ''#error''
      | TextNode \<Rightarrow> ''#text''
      | DocumentNode \<Rightarrow> ''#document''
      | CommentNode \<Rightarrow> ''#comment''
      | RawNode \<Rightarrow> [])"

definition NodeName :: "Selection \<Rightarrow> string" where
  "NodeName s =
     (case Nodes s of
        [] \<Rightarrow> []
      | p # _ \<Rightarrow> (case node_at (Doc s) p of None \<Rightarrow> [] | Some n \<Rightarrow> goquery_nodeName n))"

section \<open>The rule engine (markdown.go)\<close>

record AdvancedResult =
  Header :: string
  Markdown :: string
  Footer :: string

record Options =
  HeadingStyle :: string
  HorizontalRule :: string
  BulletListMarker :: string
  CodeBlockStyle :: string
  Fence :: string
  EmDelimiter :: string
  StrongDelimiter :: string
  LinkStyle :: string
  LinkReferenceStyle :: string
  EscapeMode :: string
  domain :: string

text \<open>
  A \<^verbatim>\<open>Rule\<close>'s \<^verbatim>\<open>Replacement\<close> returns a pointer to a string, \<^verbatim>\<open>nil\<close> (here \<open>None\<close>)
  to let the next function for the element be picked. The engine itself calls functions
  of the advanced form, which return a result and whether to skip.
\<close>

type_synonym Replacement = "string \<Rightarrow> Selection \<Rightarrow> Options \<Rightarrow> string option"

type_synonym ruleFunc = "string \<Rightarrow> Selection \<Rightarrow> Options \<Rightarrow> AdvancedResult \<times> bool"

definition String :: "string \<Rightarrow> string option" where
  "String text = Some text"

definition ruleDefault :: Replacement where
  "ruleDefault content selec opt = Some content"

text \<open>
  \<^verbatim>\<open>ruleKeep\<close> (markdown.go, lines 18-29). \<^verbatim>\<open>html.Render\<close> belongs to the parser's
  library and is a parameter: given the document and the pointer of the element, it
  returns the serialised HTML or an error. The log line is not modelled.
\<close>

definition ruleKeep ::
  "(Node \<Rightarrow> path \<Rightarrow> string + string) \<Rightarrow> string \<Rightarrow> Selection \<Rightarrow> Options \<Rightarrow> panic + string option" where
  "ruleKeep Render content selec opt =
     (case Get selec 0 of
        Inl p \<Rightarrow> Inl p
      | Inr element \<Rightarrow>
          (case Render (Doc selec) element of
             Inl err \<Rightarrow> Inr (String [])
           | Inr html \<Rightarrow> Inr (String html)))"

text \<open>
  The \<^verbatim>\<open>Converter\<close>. Its method \<^verbatim>\<open>getRuleFuncs\<close> is not among the sources and is a
  field here: for a tag name it returns the registered functions in registration order
  (a later registration stands later in the slice), or \<^verbatim>\<open>nil\<close> (here \<open>None\<close>), which
  \<^verbatim>\<open>applyRules\<close> reads as "the tag is in the remove map". \<open>remove_tags\<close> is the key
  set of the map \<^verbatim>\<open>conv.remove\<close>. The read lock has no counterpart in a sequential
  model.
\<close>

record Converter =
  getRuleFuncs :: "string \<Rightarrow> ruleFunc list option"
  remove_tags :: "string set"

text \<open>
  Modelled from the spec: the adapter \<^verbatim>\<open>wrap\<close> (not among the sources) that turns a
  \<^verbatim>\<open>Replacement\<close> into the function the engine calls. "A Rule returning no replacement
  (skip) defers to the next-lower-precedence rule for the same tag", as the comment on
  \<^verbatim>\<open>Rule\<close> in markdown.go has it ("If you return nil the next function for that html
  element will be picked"); otherwise the returned text is the Markdown and nothing
  goes to Header or Footer.
\<close>

definition wrap :: "Replacement \<Rightarrow> ruleFunc" where
  "wrap simple content selec opt =
     (case simple content selec opt of
        None \<Rightarrow> (\<lparr>Header = [], Markdown = [], Footer = []\<rparr>, True)
      | Some text \<Rightarrow> (\<lparr>Header = [], Markdown = text, Footer = []\<rparr>, False))"

text \<open>
  \<^verbatim>\<open>applyRules\<close> (markdown.go, lines 179-192). The loop counts \<^verbatim>\<open>i\<close> down from
  \<^verbatim>\<open>len(rules) - 1\<close> to \<^verbatim>\<open>0\<close>; the argument \<open>Suc i\<close> of \<open>applyRules_loop\<close> is the state
  in which the loop is about to run with index \<open>i\<close>, and \<open>0\<close> the state after the last
  round. The second component of the loop's value is a log that the Go code does not
  keep: the indices of the functions called, in the order of the calls.
\<close>

fun applyRules_loop ::
  "ruleFunc list \<Rightarrow> nat \<Rightarrow> string \<Rightarrow> Selection \<Rightarrow> Options \<Rightarrow> (AdvancedResult \<times> bool) \<times> nat list" where
  "applyRules_loop rules 0 markdown selec opt =
     ((\<lparr>Header = [], Markdown = markdown, Footer = []\<rparr>, True), [])"
| "applyRules_loop rules (Suc i) markdown selec opt =
     (let (res, skip) = (rules ! i) markdown selec opt in
      if \<not> skip then ((res, False), [i])
      else let (r, calls) = applyRules_loop rules i markdown selec opt in (r, i # calls))"

definition applyRules ::
  "Converter \<Rightarrow> string \<Rightarrow> string \<Rightarrow> Selection \<Rightarrow> Options \<Rightarrow> AdvancedResult \<times> bool" where
  "applyRules conv nodeName markdown selec opt =
     (case getRuleFuncs conv nodeName of
        None \<Rightarrow> (\<lparr>Header = [], Markdown = [], Footer = []\<rparr>, False)
      | Some rules \<Rightarrow> fst (applyRules_loop rules (length rules) markdown selec opt))"

text \<open>The functions that one call of \<^verbatim>\<open>applyRules\<close> invokes, by index, in order.\<close>

definition applyRules_calls ::
  "Converter \<Rightarrow> string \<Rightarrow> string \<Rightarrow> Selection \<Rightarrow> Options \<Rightarrow> nat list" where
  "applyRules_calls conv nodeName markdown selec opt =
     (case getRuleFuncs conv nodeName of
        None \<Rightarrow> []
      | Some rules \<Rightarrow> snd (applyRules_loop rules (length rules) markdown selec opt))"

text \<open>
  \<^verbatim>\<open>appendBlock\<close> (markdown.go, lines 194-206). The Go code reassigns its parameter
  \<^verbatim>\<open>current\<close>; the three stages are the three \<open>let\<close>-bound values.
\<close>

definition appendBlock :: "string \<Rightarrow> string \<Rightarrow> string" where
  "appendBlock current addition =
     (if addition = [] then current
      else
        let current1 = (if current \<noteq> [] \<and> \<not> HasSuffix current [LF]
                        then current @ [LF] else current);
            current2 = current1 @ addition;
            current3 = (if \<not> HasSuffix addition [LF] then current2 @ [LF] else current2)
        in current3)"

text \<open>\<^verbatim>\<open>accumulate\<close> (markdown.go, lines 208-211): the receiver is returned updated.\<close>

definition accumulate :: "AdvancedResult \<Rightarrow> AdvancedResult \<Rightarrow> AdvancedResult" where
  "accumulate result other =
     result\<lparr>Header := appendBlock (Header result) (Header other),
            Footer := appendBlock (Footer result) (Footer other)\<rparr>"

text \<open>
  \<^verbatim>\<open>selecToMD\<close> (markdown.go, lines 213-245). The closure passed to \<^verbatim>\<open>Each\<close> updates
  \<^verbatim>\<open>result\<close> and \<^verbatim>\<open>builder\<close>; here it maps the pair to the updated pair, and \<open>fold\<close>
  runs it over the children in document order. The recursion descends into the
  children of the selected nodes, so the number of nodes below the selection decreases.
\<close>

fun weight :: "Node \<Rightarrow> nat" where
  "weight (Node t d a cs) = Suc (sum_list (map weight cs))"

definition sel_weight :: "Selection \<Rightarrow> nat" where
  "sel_weight s =
     sum_list (map (\<lambda>p. case node_at (Doc s) p of None \<Rightarrow> 0 | Some n \<Rightarrow> weight n) (Nodes s))"

lemma set_appendWithoutDuplicates:
  "set (appendWithoutDuplicates target ns) = set target \<union> set ns"
  by (induction ns arbitrary: target) auto

lemma set_mapNodes_aux:
  "set (foldl (\<lambda>result n. appendWithoutDuplicates result (f n)) acc nodes)
     = set acc \<union> (\<Union>n \<in> set nodes. set (f n))"
  by (induction nodes arbitrary: acc) (auto simp: set_appendWithoutDuplicates)

lemma set_mapNodes: "set (mapNodes nodes f) = (\<Union>n \<in> set nodes. set (f n))"
  by (simp add: mapNodes_def set_mapNodes_aux)

lemma node_at_snoc:
  "node_at doc (p @ [i]) =
     (case node_at doc p of
        None \<Rightarrow> None
      | Some n \<Rightarrow> if i < length (childNodes n) then Some (childNodes n ! i) else None)"
  by (induction doc p rule: node_at.induct) auto

lemma weight_child: "i < length (childNodes n) \<Longrightarrow> weight (childNodes n ! i) < weight n"
proof (cases n)
  case (Node t d a cs)
  assume "i < length (childNodes n)"
  with Node have "weight (cs ! i) \<in> set (map weight cs)" by simp
  then have "weight (cs ! i) \<le> sum_list (map weight cs)" by (simp add: member_le_sum_list)
  with Node show ?thesis by simp
qed

lemma sel_weight_member:
  "p \<in> set (Nodes s) \<Longrightarrow> node_at (Doc s) p = Some n \<Longrightarrow> weight n \<le> sel_weight s"
proof -
  assume a: "p \<in> set (Nodes s)" and b: "node_at (Doc s) p = Some n"
  let ?f = "\<lambda>p. case node_at (Doc s) p of None \<Rightarrow> 0 | Some n \<Rightarrow> weight n"
  from a have "?f p \<in> set (map ?f (Nodes s))" by simp
  then have "?f p \<le> sum_list (map ?f (Nodes s))" by (simp add: member_le_sum_list)
  with b show ?thesis by (simp add: sel_weight_def)
qed

lemma sel_weight_Each_Contents:
  "x \<in> set (Each (Contents selec)) \<Longrightarrow> sel_weight x < sel_weight selec"
proof -
  assume "x \<in> set (Each (Contents selec))"
  then obtain q where q: "q \<in> set (Nodes (Contents selec))"
    and x: "x = (Contents selec)\<lparr>Nodes := [q]\<rparr>"
    by (auto simp: Each_def)
  from q obtain p where p: "p \<in> set (Nodes selec)"
    and qp: "q \<in> set (child_paths (Doc selec) p)"
    by (auto simp: Contents_def set_mapNodes)
  from qp obtain n i where n: "node_at (Doc selec) p = Some n"
    and i: "i < length (childNodes n)" and qi: "q = p @ [i]"
    by (cases "node_at (Doc selec) p") (auto simp: child_paths_def)
  have "sel_weight x = weight (childNodes n ! i)"
    using x qi n i by (simp add: sel_weight_def Contents_def node_at_snoc)
  also have "\<dots> < weight n" using i by (rule weight_child)
  also have "\<dots> \<le> sel_weight selec" using p n by (rule sel_weight_member)
  finally show ?thesis .
qed

function selecToMD :: "Converter \<Rightarrow> Selection \<Rightarrow> Options \<Rightarrow> AdvancedResult" where
  "selecToMD conv selec opt =
     (let (result, builder) =
        fold (\<lambda>s (result, builder).
                let nodeName = NodeName s in
                if nodeName \<in> remove_tags conv then (result, builder)
                else
                  let content = selecToMD conv s opt;
                      result = accumulate result content;
                      (ruleResult, useOriginal) = applyRules conv nodeName (Markdown content) s opt;
                      result = accumulate result ruleResult
                  in if \<not> useOriginal then (result, builder @ Markdown ruleResult)
                     else (result, builder @ Markdown content))
             (Each (Contents selec))
             (\<lparr>Header = [], Markdown = [], Footer = []\<rparr>, [])
      in result\<lparr>Markdown := builder\<rparr>)"
  by pat_completeness auto
termination
  by (relation "measure (\<lambda>(conv, selec, opt). sel_weight selec)")
     (simp_all add: sel_weight_Each_Contents)

declare selecToMD.simps [simp del]

text \<open>
  \<^verbatim>\<open>applyRulesToSelection\<close> (markdown.go, lines 247-268). The selection is a pointer that
  may be \<^verbatim>\<open>nil\<close>.
\<close>

definition applyRulesToSelection :: "Converter \<Rightarrow> Selection option \<Rightarrow> Options \<Rightarrow> AdvancedResult" where
  "applyRulesToSelection conv selec_ptr opt =
     (case selec_ptr of
        None \<Rightarrow> \<lparr>Header = [], Markdown = [], Footer = []\<rparr>
      | Some selec \<Rightarrow>
          if length (Nodes selec) = 0 then \<lparr>Header = [], Markdown = [], Footer = []\<rparr>
          else
            let content = selecToMD conv selec opt;
                result = \<lparr>Header = Header content, Markdown = [], Footer = Footer content\<rparr>;
                (ruleResult, useOriginal) =
                   applyRules conv (NodeName selec) (Markdown content) selec opt;
                result = accumulate result ruleResult
            in if \<not> useOriginal then result\<lparr>Markdown := Markdown ruleResult\<rparr>
               else result\<lparr>Markdown := Markdown content\<rparr>)"

section \<open>The Table plugin (plugin/table.go)\<close>

text \<open>
  The rule of \<^verbatim>\<open>Table()\<close> with the filter \<^verbatim>\<open>table\<close> (table.go, lines 71-94). The
  closure passed to \<^verbatim>\<open>Each\<close> updates \<^verbatim>\<open>maxCount\<close>, which starts at zero.
\<close>

definition Table_tableRule :: Replacement where
  "Table_tableRule content selec opt =
     (let noHeader = (Length (Find selec ''thead'') = 0 \<and> Length (Find selec ''th'') = 0);
          content1 =
            (if noHeader then
               let maxCount =
                     fold (\<lambda>s maxCount.
                             let count = Length (Children s) in
                             if count > maxCount then count else maxCount)
                          (Each (Find selec ''tr'')) 0;
                   header = ''|'' @ Repeat ''     |'' maxCount;
                   divider = ''|'' @ Repeat '' --- |'' maxCount
               in header @ [LF] @ divider @ content
             else content);
          content2 = [LF, LF] @ content1 @ [LF, LF]
      in Some content2)"

text \<open>\<^verbatim>\<open>isFirstTbody\<close> (table.go, lines 182-189).\<close>

definition isFirstTbody :: "Selection \<Rightarrow> bool" where
  "isFirstTbody s =
     (let firstSibling = Eq (Siblings s) 0 in
      if Is s ''tbody'' \<and> Length firstSibling = 0 then True else False)"

text \<open>
  \<^verbatim>\<open>isHeadingRow\<close> (table.go, lines 140-181). The first loop leaves \<^verbatim>\<open>everyTH\<close> true
  exactly when no child at an index below \<^verbatim>\<open>children.Length()\<close> has another name
  than \<^verbatim>\<open>th\<close>. The last loop walks the children of \<^verbatim>\<open>parentNode\<close> from the first and
  returns at the first element: \<open>find\<close> yields that child, if there is one.
\<close>

definition isHeadingRow :: "Selection \<Rightarrow> bool" where
  "isHeadingRow s =
     (let parent = Parent s in
      if NodeName parent = ''thead'' then True
      else
        let isTableOrBody = (Is parent ''table'' \<or> isFirstTbody parent);
            children = Children s;
            everyTH = list_all (\<lambda>i. NodeName (Eq children i) = ''th'') [0..<Length children]
        in if \<not> everyTH \<or> \<not> isTableOrBody then False
           else if length (Nodes s) = 0 \<or> length (Nodes parent) = 0 then False
           else
             let parentNode = Nodes parent ! 0;
                 sNode = Nodes s ! 0
             in (case find (is_element (Doc s)) (child_paths (Doc s) parentNode) of
                   Some child \<Rightarrow> child = sNode
                 | None \<Rightarrow> False))"

section \<open>The RobustCodeBlock plugin\<close>

text \<open>
  \<^verbatim>\<open>isGutter\<close> (lines 18-21). The functions of this plugin call \<^verbatim>\<open>strings.ToLower\<close> and
  carry its parameter, written \<open>L\<close>.
\<close>

definition isGutter :: "(string \<Rightarrow> string) \<Rightarrow> string \<Rightarrow> bool" where
  "isGutter L class_val =
     (let lower = ToLower L class_val in Contains lower ''gutter'' \<or> Contains lower ''line-numbers'')"

text \<open>
  \<^verbatim>\<open>collect\<close> (lines 38-71) writes to a string builder; the model returns what one call
  writes, and a caller appends it. A node pointer that is \<^verbatim>\<open>nil\<close> does not occur among
  the children of a node.
\<close>

definition blockish :: "string list" where
  "blockish = [''p'', ''div'', ''li'', ''tr'', ''table'', ''thead'', ''tbody'', ''tfoot'', ''section'',
               ''article'', ''blockquote'', ''pre'', ''h1'', ''h2'', ''h3'', ''h4'', ''h5'', ''h6'']"

fun collect :: "(string \<Rightarrow> string) \<Rightarrow> Node \<Rightarrow> string" where
  "collect L (Node t d a cs) =
     (case t of
        TextNode \<Rightarrow> d
      | ElementNode \<Rightarrow>
          (let name = ToLower L d in
           if name \<noteq> [] \<and> (\<exists>x \<in> set a. Key x = ''class'' \<and> isGutter L (Val x)) then []
           else (if name = ''br'' then [LF] else [])
                @ concat (map (collect L) cs)
                @ (if name \<in> set blockish then [LF] else []))
      | _ \<Rightarrow> [])"

text \<open>
  The loop \<^verbatim>\<open>for _, n := range selec.Nodes { collect(n, &b) }\<close> of both rules, and the
  builder's final content.
\<close>

definition collect_Nodes :: "(string \<Rightarrow> string) \<Rightarrow> Selection \<Rightarrow> string" where
  "collect_Nodes L selec =
     concat (map (\<lambda>n. case node_at (Doc selec) n of None \<Rightarrow> [] | Some node \<Rightarrow> collect L node)
                 (Nodes selec))"

text \<open>
  \<^verbatim>\<open>codeRule\<close> (lines 96-123). \<^verbatim>\<open>md.TrimTrailingSpaces\<close> is not among the sources and
  is a parameter of the rule, after the parameter \<open>L\<close> that \<^verbatim>\<open>collect\<close> passes to
  \<^verbatim>\<open>strings.ToLower\<close>.
\<close>

definition codeRule :: "(string \<Rightarrow> string) \<Rightarrow> (string \<Rightarrow> string) \<Rightarrow> Replacement" where
  "codeRule L TrimTrailingSpaces content selec opt =
     (if Length (ParentsFiltered selec ''pre'') > 0 then None
      else
        let code = collect_Nodes L selec;
            code1 = TrimTrailingSpaces (ReplaceAll_CRLF_LF code);
            fence = (if Contains code1 [backtick]
                     then (if Contains code1 [backtick, backtick]
                           then [backtick, backtick, backtick]
                           else [backtick, backtick])
                     else [backtick]);
            out = fence @ code1 @ fence
        in String out)"

section \<open>Notions for the statements\<close>

text \<open>
  The definitions of this section are what the theorems of the last section are stated
  with: the words of the specification where a theorem compares the code with them, and
  the behaviour of the code where the specification is amended.
\<close>

text \<open>
  A fragment that ends in a newline, and the accumulation of two fragments as blocks:
  each fragment on lines of its own.
\<close>

definition newline_terminated :: "string \<Rightarrow> string" where
  "newline_terminated s = (if s = [] \<or> last s = LF then s else s @ [LF])"

definition join_blocks :: "string \<Rightarrow> string \<Rightarrow> string" where
  "join_blocks current addition =
     (if addition = [] then current else newline_terminated current @ newline_terminated addition)"

text \<open>
  The walk over the children of a selection. \<open>visit_child\<close> is what the walker does
  with one child that it does not skip: render it, merge its Header and Footer, apply
  the rules to it, merge theirs, and append the chosen Markdown. \<open>kept_children\<close> are
  the children whose tag is not in the removed set, in document order, and
  \<open>render_children\<close> walks a list of children from the empty result.
\<close>

definition visit_child ::
  "Converter \<Rightarrow> Options \<Rightarrow> Selection \<Rightarrow> AdvancedResult \<times> string \<Rightarrow> AdvancedResult \<times> string" where
  "visit_child conv opt s acc =
     (let content = selecToMD conv s opt;
          (ruleResult, useOriginal) = applyRules conv (NodeName s) (Markdown content) s opt
      in (accumulate (accumulate (fst acc) content) ruleResult,
          snd acc @ (if \<not> useOriginal then Markdown ruleResult else Markdown content)))"

definition kept_children :: "Converter \<Rightarrow> Selection \<Rightarrow> Selection list" where
  "kept_children conv selec = filter (\<lambda>s. NodeName s \<notin> remove_tags conv) (Each (Contents selec))"

definition render_children :: "Converter \<Rightarrow> Options \<Rightarrow> Selection list \<Rightarrow> AdvancedResult" where
  "render_children conv opt ss =
     (let (result, builder) =
            fold (visit_child conv opt) ss (\<lparr>Header = [], Markdown = [], Footer = []\<rparr>, [])
      in result\<lparr>Markdown := builder\<rparr>)"

text \<open>
  The fragment chosen for a child: the Markdown of the first registered function, the
  most recently registered first, that does not skip; the child's own rendered
  Markdown when every function skips. \<open>child_results\<close> are the two results whose
  Header and Footer the walker merges for a child: the child's rendering and the
  result of its rules.
\<close>

definition chosen_fragment :: "Converter \<Rightarrow> Options \<Rightarrow> Selection \<Rightarrow> string" where
  "chosen_fragment conv opt s =
     (let content = selecToMD conv s opt;
          rules = (case getRuleFuncs conv (NodeName s) of None \<Rightarrow> [] | Some rs \<Rightarrow> rs)
      in case find (\<lambda>r. \<not> snd (r (Markdown content) s opt)) (rev rules) of
           Some r \<Rightarrow> Markdown (fst (r (Markdown content) s opt))
         | None \<Rightarrow> Markdown content)"

definition child_results :: "Converter \<Rightarrow> Options \<Rightarrow> Selection \<Rightarrow> AdvancedResult list" where
  "child_results conv opt s =
     (let content = selecToMD conv s opt
      in [content, fst (applyRules conv (NodeName s) (Markdown content) s opt)])"


text \<open>
  The heading row of the specification, for the row at \<open>row\<close>: its parent is a
  \<^verbatim>\<open>thead\<close>; or it is the first element child of the \<^verbatim>\<open>table\<close>, or of a \<^verbatim>\<open>tbody\<close> that
  is itself the first element child of the \<^verbatim>\<open>table\<close>, and every cell among its
  children is a \<^verbatim>\<open>th\<close> (none is a \<^verbatim>\<open>td\<close>).
\<close>

definition first_element_child :: "Node \<Rightarrow> path \<Rightarrow> path option" where
  "first_element_child doc p = find (is_element doc) (child_paths doc p)"

definition isHeadingRow_spec :: "Node \<Rightarrow> path \<Rightarrow> bool" where
  "isHeadingRow_spec doc row =
     (row \<noteq> [] \<and>
      (let parent = butlast row in
       match_tag doc ''thead'' parent
       \<or> ((match_tag doc ''table'' parent \<and> first_element_child doc parent = Some row
            \<or> match_tag doc ''tbody'' parent \<and> first_element_child doc parent = Some row
              \<and> parent \<noteq> [] \<and> match_tag doc ''table'' (butlast parent)
              \<and> first_element_child doc (butlast parent) = Some parent)
           \<and> list_all (\<lambda>cell. \<not> match_tag doc ''td'' cell) (element_child_paths doc row))))"

text \<open>
  The elements of a tag below a selection: the nodes of that tag in the subtrees of the
  element children of a selected node. (In a parsed document only elements have
  children, so these are all the descendants of that tag.) A row's cells are its
  element children; \<open>max_row_cells\<close> is the largest number of cells of a \<^verbatim>\<open>tr\<close> below
  the table, zero when there is no row.
\<close>

definition elements_below :: "Selection \<Rightarrow> string \<Rightarrow> path set" where
  "elements_below s tag =
     {q. \<exists>p \<in> set (Nodes s). \<exists>i r. q = p @ i # r \<and> is_element (Doc s) (p @ [i])
                                     \<and> match_tag (Doc s) tag q}"

definition row_cells :: "Node \<Rightarrow> path \<Rightarrow> nat" where
  "row_cells doc row = length (element_child_paths doc row)"

definition max_row_cells :: "Selection \<Rightarrow> nat" where
  "max_row_cells table = Max (insert 0 (row_cells (Doc table) ` elements_below table ''tr''))"

text \<open>
  The text that the inline rule wraps: the collected text with every CRLF replaced by
  LF, passed through \<^verbatim>\<open>md.TrimTrailingSpaces\<close>. The shortest backtick run that does not
  occur in a text has the least length \<open>k\<close> such that \<open>k\<close> backticks in a row are not a
  (contiguous) sublist of the text.
\<close>

definition inline_code_text ::
  "(string \<Rightarrow> string) \<Rightarrow> (string \<Rightarrow> string) \<Rightarrow> Selection \<Rightarrow> string" where
  "inline_code_text L TrimTrailingSpaces selec =
     TrimTrailingSpaces (ReplaceAll_CRLF_LF (collect_Nodes L selec))"

definition shortest_free_backtick_run :: "string \<Rightarrow> string" where
  "shortest_free_backtick_run text =
     replicate (LEAST k. \<not> sublist (replicate k backtick) text) backtick"






section \<open>Example inputs\<close>

text \<open>The default options, a paragraph, and a converter with three functions for \<^verbatim>\<open>p\<close>.\<close>

definition example_options :: Options where
  "example_options =
     \<lparr>HeadingStyle = ''atx'', HorizontalRule = ''* * *'', BulletListMarker = ''-'',
      CodeBlockStyle = ''indented'', Fence = [backtick, backtick, backtick], EmDelimiter = ''_'',
      StrongDelimiter = ''**'', LinkStyle = ''inlined'', LinkReferenceStyle = ''full'',
      EscapeMode = ''basic'', domain = []\<rparr>"

definition example_paragraph :: Selection where
  "example_paragraph =
     \<lparr>Doc = Node DocumentNode [] []
              [Node ElementNode ''html'' []
                 [Node ElementNode ''head'' [] [],
                  Node ElementNode ''body'' []
                    [Node ElementNode ''p'' [] [Node TextNode ''x'' [] []]]]],
      Nodes = [[0, 1, 0]]\<rparr>"

definition example_rules :: Converter where
  "example_rules =
     \<lparr>getRuleFuncs =
        (\<lambda>tag. if tag = ''p''
               then Some [wrap (\<lambda>content selec opt. Some (''_'' @ content @ ''_'')),
                          wrap (\<lambda>content selec opt. Some (''*'' @ content @ ''*'')),
                          wrap (\<lambda>content selec opt. None)]
               else if tag = ''q'' then Some [wrap (\<lambda>content selec opt. None)]
               else Some [wrap ruleDefault]),
      remove_tags = {}\<rparr>"


text \<open>
  A converter for the examples: the tag \<^verbatim>\<open>script\<close> is removed; text nodes render as
  their own text (the converter's rule for text is not among the sources); \<^verbatim>\<open>em\<close>
  wraps its content in underscores; \<^verbatim>\<open>a\<close> has a rule of the advanced form, which puts
  a reference into the Footer; \<^verbatim>\<open>code\<close> has the inline rule of RobustCodeBlock,
  registered after the default. The texts below have no space at the end of a line:
  on them \<^verbatim>\<open>md.TrimTrailingSpaces\<close>, the parameter of that rule, returns its argument.
  \<open>example_lower\<close> stands in the place of \<^verbatim>\<open>Map(unicode.ToLower, s)\<close>. The one string
  of the examples that is not ASCII is the class value \<^verbatim>\<open>lXne-numbers\<close> with the letter
  U+0130 for \<^verbatim>\<open>X\<close> (the bytes C4 B0 in UTF-8), which the Unicode tables lower-case to
  \<^verbatim>\<open>line-numbers\<close>; on an ASCII string \<^verbatim>\<open>strings.ToLower\<close> does not reach it.
\<close>

definition example_dotted_class :: string where
  "example_dotted_class = ''l'' @ [CHR 0xC4, CHR 0xB0] @ ''ne-numbers''"

definition example_lower :: "string \<Rightarrow> string" where
  "example_lower s = (if s = example_dotted_class then ''line-numbers'' else s)"

definition example_textRule :: Replacement where
  "example_textRule content selec opt =
     (case Nodes selec of
        [] \<Rightarrow> None
      | p # _ \<Rightarrow> (case node_at (Doc selec) p of None \<Rightarrow> None | Some n \<Rightarrow> Some (Data n)))"

definition example_linkRule :: ruleFunc where
  "example_linkRule content selec opt =
     (\<lparr>Header = [], Markdown = ''['' @ content @ '']'', Footer = ''['' @ content @ '']: url''\<rparr>, False)"

definition example_converter :: Converter where
  "example_converter =
     \<lparr>getRuleFuncs =
        (\<lambda>tag. if tag = ''#text'' then Some [wrap example_textRule]
               else if tag = ''code'' then Some [wrap ruleDefault, wrap (codeRule example_lower id)]
               else if tag = ''em'' then Some [wrap (\<lambda>content selec opt. Some (''_'' @ content @ ''_''))]
               else if tag = ''a'' then Some [example_linkRule]
               else if tag = ''script'' then None
               else Some [wrap ruleDefault]),
      remove_tags = {''script''}\<rparr>"

text \<open>
  The document that the parser builds from
  \<^verbatim>\<open><code>x<script>secret</script></code>\<close>, and the body of
  \<^verbatim>\<open>a<script>s</script><em><a>b</a></em><a>c</a>\<close>.
\<close>

definition example_code_document :: Node where
  "example_code_document =
     Node DocumentNode [] []
       [Node ElementNode ''html'' []
          [Node ElementNode ''head'' [] [],
           Node ElementNode ''body'' []
             [Node ElementNode ''code'' []
                [Node TextNode ''x'' [] [],
                 Node ElementNode ''script'' [] [Node TextNode ''secret'' [] []]]]]]"

definition example_body :: Selection where
  "example_body =
     \<lparr>Doc = Node DocumentNode [] []
              [Node ElementNode ''html'' []
                 [Node ElementNode ''head'' [] [],
                  Node ElementNode ''body'' []
                    [Node TextNode ''a'' [] [],
                     Node ElementNode ''script'' [] [Node TextNode ''s'' [] []],
                     Node ElementNode ''em'' [] [Node ElementNode ''a'' [] [Node TextNode ''b'' [] []]],
                     Node ElementNode ''a'' [] [Node TextNode ''c'' [] []]]]],
      Nodes = [[0, 1]]\<rparr>"


text \<open>
  A \<^verbatim>\<open>br\<close> element to which a hook has appended a text node, and a renderer that fails
  with the error that \<^verbatim>\<open>html.Render\<close> returns for a void element with children.
\<close>

definition example_void_element :: Selection where
  "example_void_element =
     \<lparr>Doc = Node DocumentNode [] []
              [Node ElementNode ''html'' []
                 [Node ElementNode ''head'' [] [],
                  Node ElementNode ''body'' []
                    [Node ElementNode ''br'' [] [Node TextNode ''x'' [] []]]]],
      Nodes = [[0, 1, 0]]\<rparr>"

definition example_failing_Render :: "Node \<Rightarrow> path \<Rightarrow> string + string" where
  "example_failing_Render doc element = Inl ''html: void element <br> has child nodes''"

text \<open>
  The document of
  \<^verbatim>\<open><table><tbody><tr><th>H</th></tr></tbody><tbody><tr><td>x</td></tr></tbody></table>\<close>.
\<close>

definition example_two_tbodies :: Node where
  "example_two_tbodies =
     Node DocumentNode [] []
       [Node ElementNode ''html'' []
          [Node ElementNode ''head'' [] [],
           Node ElementNode ''body'' []
             [Node ElementNode ''table'' []
                [Node ElementNode ''tbody'' []
                   [Node ElementNode ''tr'' [] [Node ElementNode ''th'' [] [Node TextNode ''H'' [] []]]],
                 Node ElementNode ''tbody'' []
                   [Node ElementNode ''tr'' [] [Node ElementNode ''td'' [] [Node TextNode ''x'' [] []]]]]]]]"

text \<open>
  A table without header: a row of two cells, a text node, and a row of three cells.
\<close>

definition example_table :: Selection where
  "example_table =
     \<lparr>Doc = Node DocumentNode [] []
              [Node ElementNode ''html'' []
                 [Node ElementNode ''head'' [] [],
                  Node ElementNode ''body'' []
                    [Node ElementNode ''table'' []
                       [Node ElementNode ''tbody'' []
                          [Node ElementNode ''tr'' []
                             [Node ElementNode ''td'' [] [Node TextNode ''a'' [] []],
                              Node ElementNode ''td'' [] [Node TextNode ''b'' [] []]],
                           Node TextNode '' '' [] [],
                           Node ElementNode ''tr'' []
                             [Node ElementNode ''td'' [] [Node TextNode ''c'' [] []],
                              Node ElementNode ''td'' [] [Node TextNode ''d'' [] []],
                              Node ElementNode ''td'' [] [Node TextNode ''e'' [] []]]]]]]],
      Nodes = [[0, 1, 0]]\<rparr>"


text \<open>
  The document of \<^verbatim>\<open><p><code>text</code></p>\<close> with the \<^verbatim>\<open>code\<close> element selected, and a
  \<^verbatim>\<open>pre\<close> element as a syntax highlighter writes it: a column of line numbers, two lines
  in \<^verbatim>\<open>div\<close> elements, a \<^verbatim>\<open>br\<close> and a comment; and a \<^verbatim>\<open>pre\<close> element whose line number
  sits in a \<^verbatim>\<open>span\<close> of the class with the letter U+0130.
\<close>

definition example_inline_code :: "string \<Rightarrow> Selection" where
  "example_inline_code text =
     \<lparr>Doc = Node DocumentNode [] []
              [Node ElementNode ''html'' []
                 [Node ElementNode ''head'' [] [],
                  Node ElementNode ''body'' []
                    [Node ElementNode ''p'' []
                       [Node ElementNode ''code'' [] [Node TextNode text [] []]]]]],
      Nodes = [[0, 1, 0, 0]]\<rparr>"




section \<open>Theorems\<close>

subsection \<open>Accumulation of Header and Footer\<close>

lemma HasSuffix_LF: "HasSuffix s [LF] \<longleftrightarrow> s \<noteq> [] \<and> last s = LF"
proof (cases s rule: rev_cases)
  case Nil
  then show ?thesis by (simp add: HasSuffix_def)
next
  case (snoc ys y)
  then show ?thesis by (simp add: HasSuffix_def)
qed

lemma appendBlock_join_blocks: "appendBlock current addition = join_blocks current addition"
  by (simp add: appendBlock_def join_blocks_def newline_terminated_def HasSuffix_LF Let_def)

text \<open>
  C2, as the code has it. \<^verbatim>\<open>accumulate\<close> merges the Header of the other result into the
  Header of the receiver, and the Footer into the Footer, and leaves the Markdown alone.
  An empty addition leaves the current fragment unchanged; otherwise the current
  fragment (if it is not empty) is ended with a newline unless it ends with one, the
  addition follows, and a newline ends it unless it ends with one. No blank line is
  inserted: two fragments that end in no newline are one newline apart.
\<close>

theorem accumulate_joins_blocks:
  "Header (accumulate result other) = join_blocks (Header result) (Header other)
   \<and> Footer (accumulate result other) = join_blocks (Footer result) (Footer other)
   \<and> Markdown (accumulate result other) = Markdown result"
  by (simp add: accumulate_def appendBlock_join_blocks)

text \<open>
  C2 as it is stated fails: the Headers \<^verbatim>\<open>a\<close> and \<^verbatim>\<open>b\<close> end up one newline apart, with
  no blank line between them, and an empty Header merged with \<^verbatim>\<open>b\<close> gives \<^verbatim>\<open>b\<close> followed
  by a newline, not \<^verbatim>\<open>b\<close> unchanged.
\<close>

theorem accumulate_no_blank_line:
  "Header (accumulate \<lparr>Header = ''a'', Markdown = [], Footer = []\<rparr>
                      \<lparr>Header = ''b'', Markdown = [], Footer = []\<rparr>) = [CHR ''a'', LF, CHR ''b'', LF]
   \<and> Header (accumulate \<lparr>Header = [], Markdown = [], Footer = []\<rparr>
                        \<lparr>Header = ''b'', Markdown = [], Footer = []\<rparr>) = [CHR ''b'', LF]"
  by (simp add: accumulate_def appendBlock_def HasSuffix_def)

subsection \<open>Precedence of the registered functions\<close>

lemma applyRules_loop_hit:
  "i < k \<Longrightarrow> \<not> snd ((rules ! i) markdown selec opt)
   \<Longrightarrow> (\<forall>j. i < j \<and> j < k \<longrightarrow> snd ((rules ! j) markdown selec opt))
   \<Longrightarrow> applyRules_loop rules k markdown selec opt
         = ((fst ((rules ! i) markdown selec opt), False), rev [i..<k])"
proof (induction k)
  case 0
  then show ?case by simp
next
  case (Suc k)
  show ?case
  proof (cases "i = k")
    case True
    with Suc.prems show ?thesis by (simp add: case_prod_unfold)
  next
    case False
    with Suc.prems have ik: "i < k" by simp
    from Suc.prems ik have sk: "snd ((rules ! k) markdown selec opt)" by simp
    from Suc.prems have "\<forall>j. i < j \<and> j < k \<longrightarrow> snd ((rules ! j) markdown selec opt)" by simp
    with Suc.IH ik Suc.prems(2)
    have "applyRules_loop rules k markdown selec opt
            = ((fst ((rules ! i) markdown selec opt), False), rev [i..<k])" by blast
    with sk ik show ?thesis by (simp add: case_prod_unfold)
  qed
qed

lemma applyRules_loop_all_skip:
  "(\<forall>j < k. snd ((rules ! j) markdown selec opt))
   \<Longrightarrow> applyRules_loop rules k markdown selec opt
         = ((\<lparr>Header = [], Markdown = markdown, Footer = []\<rparr>, True), rev [0..<k])"
  by (induction k) (simp_all add: case_prod_unfold)

text \<open>
  C1. Let \<^verbatim>\<open>getRuleFuncs\<close> return the slice \<open>rules\<close> for the tag (the functions in the
  order of registration). If the function at index \<open>i\<close> does not skip and every
  function registered after it skips, \<^verbatim>\<open>applyRules\<close> returns the result of function
  \<open>i\<close>, and the functions it has called are those at the indices
  \<open>length rules - 1\<close> down to \<open>i\<close>, in that order. If every function skips (or the
  slice is empty), the functions called are all of them, the last registered first,
  and the result is the content passed in as Markdown, with the flag that tells the
  walker to use the child's own rendering.
\<close>

theorem applyRules_most_recent_first:
  assumes "getRuleFuncs conv nodeName = Some rules"
  shows "(i < length rules \<and> \<not> snd ((rules ! i) markdown selec opt)
          \<and> (\<forall>j. i < j \<and> j < length rules \<longrightarrow> snd ((rules ! j) markdown selec opt))
          \<longrightarrow> applyRules conv nodeName markdown selec opt = (fst ((rules ! i) markdown selec opt), False)
              \<and> applyRules_calls conv nodeName markdown selec opt = rev [i..<length rules])
       \<and> ((\<forall>j < length rules. snd ((rules ! j) markdown selec opt))
          \<longrightarrow> applyRules conv nodeName markdown selec opt
                = (\<lparr>Header = [], Markdown = markdown, Footer = []\<rparr>, True)
              \<and> applyRules_calls conv nodeName markdown selec opt = rev [0..<length rules])"
proof (intro conjI impI)
  assume h: "i < length rules \<and> \<not> snd ((rules ! i) markdown selec opt)
             \<and> (\<forall>j. i < j \<and> j < length rules \<longrightarrow> snd ((rules ! j) markdown selec opt))"
  then have "applyRules_loop rules (length rules) markdown selec opt
               = ((fst ((rules ! i) markdown selec opt), False), rev [i..<length rules])"
    by (intro applyRules_loop_hit) simp_all
  with assms
  show "applyRules conv nodeName markdown selec opt = (fst ((rules ! i) markdown selec opt), False)"
    and "applyRules_calls conv nodeName markdown selec opt = rev [i..<length rules]"
    by (simp_all add: applyRules_def applyRules_calls_def)
next
  assume "\<forall>j < length rules. snd ((rules ! j) markdown selec opt)"
  then have "applyRules_loop rules (length rules) markdown selec opt
               = ((\<lparr>Header = [], Markdown = markdown, Footer = []\<rparr>, True), rev [0..<length rules])"
    by (rule applyRules_loop_all_skip)
  with assms
  show "applyRules conv nodeName markdown selec opt
          = (\<lparr>Header = [], Markdown = markdown, Footer = []\<rparr>, True)"
    and "applyRules_calls conv nodeName markdown selec opt = rev [0..<length rules]"
    by (simp_all add: applyRules_def applyRules_calls_def)
qed

theorem applyRules_most_recent_first_witness:
  "applyRules example_rules ''p'' ''x'' example_paragraph example_options
     = (\<lparr>Header = [], Markdown = ''*x*'', Footer = []\<rparr>, False)
   \<and> applyRules_calls example_rules ''p'' ''x'' example_paragraph example_options = [2, 1]
   \<and> applyRules example_rules ''q'' ''x'' example_paragraph example_options
     = (\<lparr>Header = [], Markdown = ''x'', Footer = []\<rparr>, True)
   \<and> applyRules_calls example_rules ''q'' ''x'' example_paragraph example_options = [0]"
proof -
  let ?rs = "[wrap (\<lambda>content selec opt. Some (''_'' @ content @ ''_'')),
              wrap (\<lambda>content selec opt. Some (''*'' @ content @ ''*'')),
              wrap (\<lambda>content selec opt. None)]"
  have p: "getRuleFuncs example_rules ''p'' = Some ?rs"
    by (simp add: example_rules_def)
  have q: "getRuleFuncs example_rules ''q'' = Some [wrap (\<lambda>content selec opt. None)]"
    by (simp add: example_rules_def)
  have up: "[1..<3] = [1, 2]" by (simp add: upt_rec)
  from applyRules_most_recent_first [OF p, of 1 "''x''" example_paragraph example_options]
  have "applyRules example_rules ''p'' ''x'' example_paragraph example_options
          = (\<lparr>Header = [], Markdown = ''*x*'', Footer = []\<rparr>, False)
        \<and> applyRules_calls example_rules ''p'' ''x'' example_paragraph example_options = [2, 1]"
    by (simp add: wrap_def up nth_Cons')
  moreover
  from applyRules_most_recent_first [OF q, of 0 "''x''" example_paragraph example_options]
  have "applyRules example_rules ''q'' ''x'' example_paragraph example_options
          = (\<lparr>Header = [], Markdown = ''x'', Footer = []\<rparr>, True)
        \<and> applyRules_calls example_rules ''q'' ''x'' example_paragraph example_options = [0]"
    by (simp add: wrap_def)
  ultimately show ?thesis by simp
qed

text \<open>
  For a tag that \<^verbatim>\<open>getRuleFuncs\<close> answers with \<^verbatim>\<open>nil\<close>, the marker of a removed tag, no
  function is called and the result is empty.
\<close>

lemma applyRules_removed_marker:
  "getRuleFuncs conv nodeName = None
   \<Longrightarrow> applyRules conv nodeName markdown selec opt = (\<lparr>Header = [], Markdown = [], Footer = []\<rparr>, False)
       \<and> applyRules_calls conv nodeName markdown selec opt = []"
  by (simp add: applyRules_def applyRules_calls_def)

subsection \<open>The walker\<close>

lemma fold_skip:
  "fold (\<lambda>s acc. if P s then acc else f s acc) xs a = fold f (filter (\<lambda>s. \<not> P s) xs) a"
  by (induction xs arbitrary: a) simp_all

lemma selecToMD_body:
  "(\<lambda>s (result, builder).
      let nodeName = NodeName s in
      if nodeName \<in> remove_tags conv then (result, builder)
      else
        let content = selecToMD conv s opt;
            result = accumulate result content;
            (ruleResult, useOriginal) = applyRules conv nodeName (Markdown content) s opt;
            result = accumulate result ruleResult
        in if \<not> useOriginal then (result, builder @ Markdown ruleResult)
           else (result, builder @ Markdown content))
   = (\<lambda>s acc. if NodeName s \<in> remove_tags conv then acc else visit_child conv opt s acc)"
  by (intro ext) (simp add: visit_child_def Let_def case_prod_unfold)

lemma selecToMD_walk:
  "selecToMD conv selec opt = render_children conv opt (kept_children conv selec)"
  by (subst selecToMD.simps)
     (simp only: selecToMD_body fold_skip render_children_def kept_children_def)

text \<open>
  C3, as the code has it. The walker skips a child whose tag is in the removed set: it
  does not render the child, applies no rule to it and merges no Markdown, Header or
  Footer for it. The rendering of a selection is the walk over the kept children alone.
\<close>

theorem selecToMD_skips_removed:
  "selecToMD conv selec opt = render_children conv opt (kept_children conv selec)"
  by (rule selecToMD_walk)

lemma applyRules_loop_append:
  "k \<le> length rs \<Longrightarrow> applyRules_loop (rs @ extra) k md s opt = applyRules_loop rs k md s opt"
  by (induction k) (simp_all add: nth_append case_prod_unfold Let_def)

lemma applyRules_loop_find:
  "fst (applyRules_loop rules (length rules) md s opt)
     = (case find (\<lambda>r. \<not> snd (r md s opt)) (rev rules) of
          Some r \<Rightarrow> (fst (r md s opt), False)
        | None \<Rightarrow> (\<lparr>Header = [], Markdown = md, Footer = []\<rparr>, True))"
proof (induction rules rule: rev_induct)
  case Nil
  then show ?case by simp
next
  case (snoc r rs)
  then show ?case
    by (simp add: applyRules_loop_append case_prod_unfold)
qed

lemma fold_visit_child:
  "fold (visit_child conv opt) ss (r0, b0) =
     (foldl accumulate r0 (concat (map (child_results conv opt) ss)),
      b0 @ concat (map (\<lambda>s. let content = selecToMD conv s opt;
                                (ruleResult, useOriginal) = applyRules conv (NodeName s) (Markdown content) s opt
                            in if \<not> useOriginal then Markdown ruleResult else Markdown content) ss))"
  by (induction ss arbitrary: r0 b0)
     (simp_all add: visit_child_def child_results_def Let_def case_prod_unfold)

lemma Header_foldl_accumulate:
  "Header (foldl accumulate r0 rs) = foldl appendBlock (Header r0) (map Header rs)"
  by (induction rs arbitrary: r0) (simp_all add: accumulate_def)

lemma Footer_foldl_accumulate:
  "Footer (foldl accumulate r0 rs) = foldl appendBlock (Footer r0) (map Footer rs)"
  by (induction rs arbitrary: r0) (simp_all add: accumulate_def)

lemma chosen_fragment_eq:
  assumes "getRuleFuncs conv (NodeName s) \<noteq> None"
  shows "(let content = selecToMD conv s opt;
              (ruleResult, useOriginal) = applyRules conv (NodeName s) (Markdown content) s opt
          in if \<not> useOriginal then Markdown ruleResult else Markdown content)
         = chosen_fragment conv opt s"
proof -
  from assms obtain rules where r: "getRuleFuncs conv (NodeName s) = Some rules" by auto
  show ?thesis
  proof (cases "find (\<lambda>r. \<not> snd (r (Markdown (selecToMD conv s opt)) s opt)) (rev rules)")
    case None
    then show ?thesis
      by (simp add: chosen_fragment_def applyRules_def applyRules_loop_find r)
  next
    case (Some a)
    then show ?thesis
      by (simp add: chosen_fragment_def applyRules_def applyRules_loop_find r)
  qed
qed

text \<open>
  C4. When \<^verbatim>\<open>getRuleFuncs\<close> returns \<^verbatim>\<open>nil\<close> for removed tags only, the Markdown of a
  rendering is the concatenation, in document order and with nothing in between, of
  the chosen fragments of the kept children; its Header (Footer) is the Headers
  (Footers) of the children's renderings and of their rule results, merged in document
  order by \<^verbatim>\<open>appendBlock\<close>.
\<close>

theorem selecToMD_concatenates:
  assumes "\<forall>tag. getRuleFuncs conv tag = None \<longrightarrow> tag \<in> remove_tags conv"
  shows "Markdown (selecToMD conv selec opt)
           = concat (map (chosen_fragment conv opt) (kept_children conv selec))
         \<and> Header (selecToMD conv selec opt)
           = foldl appendBlock [] (map Header (concat (map (child_results conv opt) (kept_children conv selec))))
         \<and> Footer (selecToMD conv selec opt)
           = foldl appendBlock [] (map Footer (concat (map (child_results conv opt) (kept_children conv selec))))"
proof -
  let ?kept = "kept_children conv selec"
  let ?pick = "\<lambda>s. let content = selecToMD conv s opt;
                       (ruleResult, useOriginal) = applyRules conv (NodeName s) (Markdown content) s opt
                   in if \<not> useOriginal then Markdown ruleResult else Markdown content"
  have "\<forall>s \<in> set ?kept. getRuleFuncs conv (NodeName s) \<noteq> None"
    using assms by (auto simp: kept_children_def)
  then have pick: "map ?pick ?kept = map (chosen_fragment conv opt) ?kept"
    by (intro map_cong refl chosen_fragment_eq) simp
  have walk: "fold (visit_child conv opt) ?kept (\<lparr>Header = [], Markdown = [], Footer = []\<rparr>, [])
          = (foldl accumulate \<lparr>Header = [], Markdown = [], Footer = []\<rparr>
               (concat (map (child_results conv opt) ?kept)),
             concat (map ?pick ?kept))"
    by (simp only: fold_visit_child append_Nil)
  have "selecToMD conv selec opt
          = (case fold (visit_child conv opt) ?kept (\<lparr>Header = [], Markdown = [], Footer = []\<rparr>, [])
             of (result, builder) \<Rightarrow> result\<lparr>Markdown := builder\<rparr>)"
    by (simp only: selecToMD_walk [of conv selec opt] render_children_def Let_def)
  also have "\<dots> = (foldl accumulate \<lparr>Header = [], Markdown = [], Footer = []\<rparr>
               (concat (map (child_results conv opt) ?kept)))
            \<lparr>Markdown := concat (map ?pick ?kept)\<rparr>"
    by (simp only: walk prod.case)
  also have "\<dots> = (foldl accumulate \<lparr>Header = [], Markdown = [], Footer = []\<rparr>
               (concat (map (child_results conv opt) ?kept)))
            \<lparr>Markdown := concat (map (chosen_fragment conv opt) ?kept)\<rparr>"
    by (simp only: pick)
  finally have unfold: "selecToMD conv selec opt
          = (foldl accumulate \<lparr>Header = [], Markdown = [], Footer = []\<rparr>
               (concat (map (child_results conv opt) ?kept)))
            \<lparr>Markdown := concat (map (chosen_fragment conv opt) ?kept)\<rparr>" .
  show ?thesis
    by (simp only: unfold) (simp add: Header_foldl_accumulate Footer_foldl_accumulate)
qed

text \<open>
  C10. For a \<^verbatim>\<open>nil\<close> selection and for a selection without nodes the result is the empty
  result, whatever the converter and its rules are.
\<close>

theorem applyRulesToSelection_empty:
  "applyRulesToSelection conv None opt = \<lparr>Header = [], Markdown = [], Footer = []\<rparr>
   \<and> applyRulesToSelection conv (Some \<lparr>Doc = doc, Nodes = []\<rparr>) opt
       = \<lparr>Header = [], Markdown = [], Footer = []\<rparr>"
  by (simp add: applyRulesToSelection_def)

subsection \<open>The walker on examples\<close>

lemmas walk_eval =
  selecToMD_walk render_children_def kept_children_def visit_child_def
  Each_def Contents_def mapNodes_def child_paths_def NodeName_def goquery_nodeName_def
  applyRules_def wrap_def accumulate_def appendBlock_def HasSuffix_def ruleDefault_def
  example_converter_def example_textRule_def example_linkRule_def

text \<open>
  C3 as it is stated fails in its last part. The \<^verbatim>\<open>script\<close> element is removed and the
  walker skips it: the rendering of the children of \<^verbatim>\<open>code\<close> is \<^verbatim>\<open>x\<close>. The rule for
  \<^verbatim>\<open>code\<close> collects the text from the nodes below the element, the removed one
  included, and the text \<^verbatim>\<open>secret\<close> is in the output of the conversion.
\<close>

theorem removed_text_reaches_output:
  "NodeName \<lparr>Doc = example_code_document, Nodes = [[0, 1, 0, 1]]\<rparr> \<in> remove_tags example_converter
   \<and> Markdown (selecToMD example_converter \<lparr>Doc = example_code_document, Nodes = [[0, 1, 0]]\<rparr>
                 example_options) = ''x''
   \<and> Markdown (applyRulesToSelection example_converter
                 (Some \<lparr>Doc = example_code_document, Nodes = [[]]\<rparr>) example_options)
       = [backtick] @ ''xsecret'' @ [backtick]"
  by (simp add: walk_eval applyRulesToSelection_def codeRule_def ParentsFiltered_def
                getParentsNodes_def ancestor_paths_def match_tag_def is_element_def Length_def
                collect_Nodes_def isGutter_def String_def HasPrefix_def ToLower_def isASCII_def
                toLower_char_def blockish_def example_code_document_def)

text \<open>
  C4 on the example body: the text, the emphasised link and the link are concatenated,
  the removed \<^verbatim>\<open>script\<close> contributes nothing, and the two references reach the Footer.
\<close>

theorem selecToMD_concatenates_witness:
  "map (chosen_fragment example_converter example_options)
       (kept_children example_converter example_body) = [''a'', ''_[b]_'', ''[c]'']
   \<and> Markdown (selecToMD example_converter example_body example_options) = ''a_[b]_[c]''
   \<and> Header (selecToMD example_converter example_body example_options) = []
   \<and> Footer (selecToMD example_converter example_body example_options)
       = ''[b]: url'' @ [LF] @ ''[c]: url'' @ [LF]"
proof -
  have nil: "\<forall>tag. getRuleFuncs example_converter tag = None \<longrightarrow> tag \<in> remove_tags example_converter"
    by (simp add: example_converter_def)
  have kept: "kept_children example_converter example_body
                = [\<lparr>Doc = Doc example_body, Nodes = [[0, 1, 0]]\<rparr>,
                   \<lparr>Doc = Doc example_body, Nodes = [[0, 1, 2]]\<rparr>,
                   \<lparr>Doc = Doc example_body, Nodes = [[0, 1, 3]]\<rparr>]"
    by (simp add: walk_eval example_body_def)
  have chosen: "map (chosen_fragment example_converter example_options)
                    (kept_children example_converter example_body) = [''a'', ''_[b]_'', ''[c]'']"
    by (simp add: kept chosen_fragment_def) (simp add: walk_eval example_body_def)
  have results: "map Header (concat (map (child_results example_converter example_options)
                    (kept_children example_converter example_body))) = [[], [], [], [], [], []]
                 \<and> map Footer (concat (map (child_results example_converter example_options)
                    (kept_children example_converter example_body)))
                    = [[], [], ''[b]: url'' @ [LF], [], [], ''[c]: url'']"
    by (simp add: kept child_results_def) (simp add: walk_eval example_body_def)
  from selecToMD_concatenates [OF nil, of example_body example_options]
  show ?thesis
    by (simp add: chosen results appendBlock_def HasSuffix_def)
qed

subsection \<open>The verbatim-keep rule\<close>

text \<open>
  C9. When the renderer returns an error for the first node of the selection,
  \<^verbatim>\<open>ruleKeep\<close> returns normally, with a pointer to the empty string: neither an error
  nor \<^verbatim>\<open>nil\<close>, so the element contributes empty content and the walk goes on.
\<close>

theorem ruleKeep_render_failure:
  assumes "Get selec 0 = Inr element" and "Render (Doc selec) element = Inl err"
  shows "ruleKeep Render content selec opt = Inr (Some [])"
  using assms by (simp add: ruleKeep_def String_def)

text \<open>C9 on the example: the element that cannot be serialised gives empty content.\<close>

theorem ruleKeep_render_failure_witness:
  "ruleKeep example_failing_Render [] example_void_element example_options = Inr (Some [])"
proof -
  have g: "Get example_void_element 0 = Inr [0, 1, 0]"
    by (simp add: Get_def example_void_element_def)
  have r: "example_failing_Render (Doc example_void_element) [0, 1, 0]
             = Inl ''html: void element <br> has child nodes''"
    by (simp add: example_failing_Render_def)
  from ruleKeep_render_failure
         [where selec = example_void_element and Render = example_failing_Render
            and element = "[0, 1, 0]", OF g r]
  show ?thesis .
qed

subsection \<open>The Table plugin\<close>

lemmas goquery_eval =
  Parent_def Children_def Siblings_def Eq_def Length_def Is_def NodeName_def goquery_nodeName_def
  mapNodes_def getParentNodes_def getSiblingNodes_def element_child_paths_def child_paths_def
  is_element_def match_tag_def

text \<open>
  C5 on a table with two \<^verbatim>\<open>tbody\<close> elements. The row of the first \<^verbatim>\<open>tbody\<close> is its first
  element child, the \<^verbatim>\<open>tbody\<close> is the first element child of the table and the only
  cell is a \<^verbatim>\<open>th\<close>: a heading row by the specification and by the comment above
  \<^verbatim>\<open>isHeadingRow\<close>. The function returns false, because \<^verbatim>\<open>isFirstTbody\<close> asks for a
  \<^verbatim>\<open>tbody\<close> without any sibling element.
\<close>

theorem isHeadingRow_two_tbodies:
  "isHeadingRow \<lparr>Doc = example_two_tbodies, Nodes = [[0, 1, 0, 0, 0]]\<rparr> = False
   \<and> isFirstTbody \<lparr>Doc = example_two_tbodies, Nodes = [[0, 1, 0, 0]]\<rparr> = False
   \<and> isHeadingRow_spec example_two_tbodies [0, 1, 0, 0, 0] = True"
  by (simp add: isHeadingRow_def isFirstTbody_def isHeadingRow_spec_def first_element_child_def
                goquery_eval example_two_tbodies_def)

text \<open>On this row the function and the specification differ.\<close>

theorem isHeadingRow_two_tbodies_differs:
  "isHeadingRow \<lparr>Doc = example_two_tbodies, Nodes = [[0, 1, 0, 0, 0]]\<rparr>
     \<noteq> isHeadingRow_spec example_two_tbodies [0, 1, 0, 0, 0]"
  using isHeadingRow_two_tbodies by simp


lemma appendWithoutDuplicates_distinct:
  "distinct (target @ ns) \<Longrightarrow> appendWithoutDuplicates target ns = target @ ns"
  by (induction ns arbitrary: target) auto

lemma mapNodes_single: "distinct (f p) \<Longrightarrow> mapNodes [p] f = f p"
  by (simp add: mapNodes_def appendWithoutDuplicates_distinct)

lemma distinct_child_paths: "distinct (child_paths doc p)"
  by (cases "node_at doc p") (simp_all add: child_paths_def distinct_map inj_on_def)

lemma distinct_element_child_paths: "distinct (element_child_paths doc p)"
  by (simp add: element_child_paths_def distinct_child_paths)

lemma Length_Children_single: "Length (Children (s\<lparr>Nodes := [p]\<rparr>)) = row_cells (Doc s) p"
  by (simp add: Length_def Children_def row_cells_def mapNodes_single distinct_element_child_paths)

lemma fold_maxCount:
  "fold (\<lambda>s maxCount. let count = g s in if count > maxCount then count else maxCount) xs (m::nat)
     = Max (insert m (set (map g xs)))"
proof (induction xs arbitrary: m)
  case Nil
  then show ?case by simp
next
  case (Cons x xs)
  have "Max (insert (max (g x) m) (set (map g xs))) = Max (insert m (insert (g x) (set (map g xs))))"
    by (cases "set (map g xs) = {}") (simp_all add: max.assoc max.commute max.left_commute)
  moreover have "(if m < g x then g x else m) = max (g x) m" by (simp add: max_def)
  ultimately show ?case using Cons.IH by (simp add: Let_def)
qed

text \<open>\<^verbatim>\<open>Find\<close> yields the elements of the tag below the selection.\<close>

lemma node_at_append:
  "node_at doc (p @ q) = (case node_at doc p of None \<Rightarrow> None | Some n \<Rightarrow> node_at n q)"
  by (induction doc p rule: node_at.induct) auto

lemma match_tag_append:
  "match_tag doc tag (p @ q) \<longleftrightarrow> (\<exists>n. node_at doc p = Some n \<and> match_tag n tag q)"
  by (simp add: match_tag_def node_at_append split: option.splits)

lemma MatchAll_iff:
  "q \<in> set (MatchAll tag p n) \<longleftrightarrow> (\<exists>r. q = p @ r \<and> match_tag n tag r)"
  and MatchAll_children_iff:
  "q \<in> set (MatchAll_children tag p i cs)
     \<longleftrightarrow> (\<exists>j r. j < length cs \<and> q = p @ (i + j) # r \<and> match_tag (cs ! j) tag r)"
proof (induction tag p n and tag p i cs arbitrary: q and q rule: MatchAll_MatchAll_children.induct)
  case (1 tag p t d a cs)
  have "(\<exists>r. q = p @ r \<and> match_tag (Node t d a cs) tag r)
          \<longleftrightarrow> (q = p \<and> t = ElementNode \<and> d = tag)
             \<or> (\<exists>j r. j < length cs \<and> q = p @ j # r \<and> match_tag (cs ! j) tag r)"
  proof
    assume "\<exists>r. q = p @ r \<and> match_tag (Node t d a cs) tag r"
    then obtain r where r: "q = p @ r" "match_tag (Node t d a cs) tag r" by blast
    show "(q = p \<and> t = ElementNode \<and> d = tag)
             \<or> (\<exists>j r. j < length cs \<and> q = p @ j # r \<and> match_tag (cs ! j) tag r)"
    proof (cases r)
      case Nil
      with r show ?thesis by (simp add: match_tag_def)
    next
      case (Cons j r')
      with r show ?thesis by (auto simp: match_tag_def split: if_splits)
    qed
  next
    assume "(q = p \<and> t = ElementNode \<and> d = tag)
             \<or> (\<exists>j r. j < length cs \<and> q = p @ j # r \<and> match_tag (cs ! j) tag r)"
    then show "\<exists>r. q = p @ r \<and> match_tag (Node t d a cs) tag r"
    proof
      assume "q = p \<and> t = ElementNode \<and> d = tag"
      then have "q = p @ [] \<and> match_tag (Node t d a cs) tag []" by (simp add: match_tag_def)
      then show ?thesis by blast
    next
      assume "\<exists>j r. j < length cs \<and> q = p @ j # r \<and> match_tag (cs ! j) tag r"
      then obtain j r where "j < length cs" "q = p @ j # r" "match_tag (cs ! j) tag r" by blast
      then have "q = p @ (j # r) \<and> match_tag (Node t d a cs) tag (j # r)"
        by (simp add: match_tag_def)
      then show ?thesis by blast
    qed
  qed
  with "1.IH" [of q] show ?case by auto
next
  case (2 tag p i)
  then show ?case by simp
next
  case (3 tag p i c cs)
  have "(\<exists>j r. j < length (c # cs) \<and> q = p @ (i + j) # r \<and> match_tag ((c # cs) ! j) tag r)
          \<longleftrightarrow> (\<exists>r. q = p @ i # r \<and> match_tag c tag r)
             \<or> (\<exists>j r. j < length cs \<and> q = p @ (Suc i + j) # r \<and> match_tag (cs ! j) tag r)"
  proof
    assume "\<exists>j r. j < length (c # cs) \<and> q = p @ (i + j) # r \<and> match_tag ((c # cs) ! j) tag r"
    then obtain j r where jr: "j < length (c # cs)" "q = p @ (i + j) # r"
      "match_tag ((c # cs) ! j) tag r" by blast
    show "(\<exists>r. q = p @ i # r \<and> match_tag c tag r)
             \<or> (\<exists>j r. j < length cs \<and> q = p @ (Suc i + j) # r \<and> match_tag (cs ! j) tag r)"
    proof (cases j)
      case 0
      with jr show ?thesis by auto
    next
      case (Suc j')
      with jr have "j' < length cs \<and> q = p @ (Suc i + j') # r \<and> match_tag (cs ! j') tag r"
        by simp
      then show ?thesis by blast
    qed
  next
    assume "(\<exists>r. q = p @ i # r \<and> match_tag c tag r)
             \<or> (\<exists>j r. j < length cs \<and> q = p @ (Suc i + j) # r \<and> match_tag (cs ! j) tag r)"
    then show "\<exists>j r. j < length (c # cs) \<and> q = p @ (i + j) # r \<and> match_tag ((c # cs) ! j) tag r"
    proof
      assume "\<exists>r. q = p @ i # r \<and> match_tag c tag r"
      then obtain r where "q = p @ i # r" "match_tag c tag r" by blast
      then have "0 < length (c # cs) \<and> q = p @ (i + 0) # r \<and> match_tag ((c # cs) ! 0) tag r"
        by simp
      then show ?thesis by blast
    next
      assume "\<exists>j r. j < length cs \<and> q = p @ (Suc i + j) # r \<and> match_tag (cs ! j) tag r"
      then obtain j r where "j < length cs" "q = p @ (Suc i + j) # r" "match_tag (cs ! j) tag r"
        by blast
      then have "Suc j < length (c # cs) \<and> q = p @ (i + Suc j) # r
                 \<and> match_tag ((c # cs) ! Suc j) tag r"
        by simp
      then show ?thesis by blast
    qed
  qed
  with "3.IH" show ?case by (auto simp del: length_Cons)
qed

lemma match_tag_child:
  assumes "node_at doc p = Some n"
  shows "match_tag doc tag (p @ i # r)
           \<longleftrightarrow> i < length (childNodes n) \<and> match_tag (childNodes n ! i) tag r"
proof -
  have "match_tag doc tag ((p @ [i]) @ r)
          \<longleftrightarrow> i < length (childNodes n) \<and> match_tag (childNodes n ! i) tag r"
    using assms by (simp only: match_tag_append node_at_snoc) (auto split: if_splits)
  then show ?thesis by simp
qed

lemma findWithMatcher_iff:
  "q \<in> set (findWithMatcher doc tag p)
     \<longleftrightarrow> (\<exists>i r. q = p @ i # r \<and> is_element doc (p @ [i]) \<and> match_tag doc tag q)"
proof (cases "node_at doc p")
  case None
  then show ?thesis
    by (auto simp: findWithMatcher_def is_element_def node_at_snoc)
next
  case (Some n)
  have "q \<in> set (findWithMatcher doc tag p)
          \<longleftrightarrow> (\<exists>i < length (childNodes n). Type (childNodes n ! i) = ElementNode
                \<and> (\<exists>r. q = (p @ [i]) @ r \<and> match_tag (childNodes n ! i) tag r))"
    using Some by (auto simp: findWithMatcher_def Let_def MatchAll_iff split: if_splits)
  also have "\<dots> \<longleftrightarrow> (\<exists>i r. q = p @ i # r \<and> is_element doc (p @ [i]) \<and> match_tag doc tag q)"
    using Some
    by (auto simp: is_element_def node_at_snoc match_tag_child [OF Some] split: if_splits)
  finally show ?thesis .
qed

lemma set_Find: "set (Nodes (Find s tag)) = elements_below s tag"
  by (auto simp: Find_def set_mapNodes findWithMatcher_iff elements_below_def)

text \<open>
  C6. For a table with no \<^verbatim>\<open>thead\<close> and no \<^verbatim>\<open>th\<close> below it, the rule puts an empty
  header row and a divider row in front of the content, each with as many columns as
  the largest number of element children of a \<^verbatim>\<open>tr\<close> below the table.
\<close>

theorem Table_synthesizes_header:
  assumes "elements_below table ''thead'' = {}" and "elements_below table ''th'' = {}"
  shows "Table_tableRule content table opt
           = Some ([LF, LF] @ ''|'' @ Repeat ''     |'' (max_row_cells table) @ [LF]
                   @ ''|'' @ Repeat '' --- |'' (max_row_cells table) @ content @ [LF, LF])"
proof -
  have none: "Length (Find table ''thead'') = 0" "Length (Find table ''th'') = 0"
    using assms by (simp_all add: Length_def set_Find [symmetric])
  have "fold (\<lambda>s maxCount. let count = Length (Children s) in
                              if count > maxCount then count else maxCount)
             (Each (Find table ''tr'')) 0
          = Max (insert 0 (set (map (row_cells (Doc table)) (Nodes (Find table ''tr'')))))"
    by (simp only: fold_maxCount)
       (simp add: Each_def Find_def comp_def Length_Children_single)
  also have "\<dots> = max_row_cells table"
    by (simp add: max_row_cells_def set_Find)
  finally show ?thesis using none
    by (simp add: Table_tableRule_def Let_def)
qed

lemmas Find_eval =
  Find_def findWithMatcher_def mapNodes_def Length_def

text \<open>C6 on the example: rows of two and three cells give three columns.\<close>

theorem Table_synthesizes_header_witness:
  "elements_below example_table ''tr'' = {[0, 1, 0, 0, 0], [0, 1, 0, 0, 2]}
   \<and> row_cells (Doc example_table) [0, 1, 0, 0, 0] = 2
   \<and> row_cells (Doc example_table) [0, 1, 0, 0, 2] = 3
   \<and> Table_tableRule ''rows'' example_table example_options
       = Some ([LF, LF] @ ''|     |     |     |'' @ [LF] @ ''| --- | --- | --- |'' @ ''rows'' @ [LF, LF])"
proof -
  have thead: "elements_below example_table ''thead'' = {}"
    by (simp add: set_Find [symmetric]) (simp add: Find_eval example_table_def)
  have th: "elements_below example_table ''th'' = {}"
    by (simp add: set_Find [symmetric]) (simp add: Find_eval example_table_def)
  have rows: "elements_below example_table ''tr'' = {[0, 1, 0, 0, 0], [0, 1, 0, 0, 2]}"
    by (simp add: set_Find [symmetric]) (simp add: Find_eval example_table_def numeral_2_eq_2)
  have cells: "row_cells (Doc example_table) [0, 1, 0, 0, 0] = 2"
    "row_cells (Doc example_table) [0, 1, 0, 0, 2] = 3"
    by (simp_all add: row_cells_def element_child_paths_def child_paths_def is_element_def
                      example_table_def)
  have "max_row_cells example_table = 3"
    using cells by (simp add: max_row_cells_def rows)
  with Table_synthesizes_header [OF thead th, of "''rows''" example_options] rows cells
  show ?thesis
    by (simp add: Repeat_def numeral_3_eq_3)
qed

subsection \<open>The RobustCodeBlock plugin\<close>

lemma HasPrefix_prefix: "HasPrefix s p \<longleftrightarrow> prefix p s"
proof
  assume "HasPrefix s p"
  then have "p = take (length p) s" by (simp add: HasPrefix_def)
  then show "prefix p s" by (metis take_is_prefix)
next
  assume "prefix p s"
  then show "HasPrefix s p" by (auto simp: HasPrefix_def prefix_def)
qed

lemma Contains_sublist: "Contains s sub \<longleftrightarrow> sublist sub s"
  by (induction s) (simp_all add: HasPrefix_prefix sublist_Cons_right)

lemma sublist_shorter_run: "sublist (replicate (Suc k) c) s \<Longrightarrow> sublist (replicate k c) s"
proof -
  assume "sublist (replicate (Suc k) c) s"
  moreover have "sublist (replicate k c) (replicate (Suc k) c)"
    by (metis replicate_Suc sublist_Cons_right sublist_order.order_refl)
  ultimately show ?thesis by (rule sublist_order.order_trans [rotated])
qed

lemma least_run_1:
  "\<not> sublist [backtick] text \<Longrightarrow> shortest_free_backtick_run text = [backtick]"
proof -
  assume a: "\<not> sublist [backtick] text"
  have "(LEAST k. \<not> sublist (replicate k backtick) text) = 1"
  proof (rule Least_equality)
    show "\<not> sublist (replicate 1 backtick) text" using a by simp
  next
    fix y assume "\<not> sublist (replicate y backtick) text"
    then have "y \<noteq> 0" by (cases y) auto
    then show "1 \<le> y" by simp
  qed
  then show ?thesis by (simp add: shortest_free_backtick_run_def)
qed

lemma least_run_2:
  "sublist [backtick] text \<Longrightarrow> \<not> sublist [backtick, backtick] text
   \<Longrightarrow> shortest_free_backtick_run text = [backtick, backtick]"
proof -
  assume a: "sublist [backtick] text" and b: "\<not> sublist [backtick, backtick] text"
  have "(LEAST k. \<not> sublist (replicate k backtick) text) = 2"
  proof (rule Least_equality)
    show "\<not> sublist (replicate 2 backtick) text" using b by (simp add: numeral_2_eq_2)
  next
    fix y assume n: "\<not> sublist (replicate y backtick) text"
    have "y \<noteq> 0" using n by (cases y) auto
    moreover have "y \<noteq> 1" using n a by auto
    ultimately show "2 \<le> y" by simp
  qed
  then show ?thesis by (simp add: shortest_free_backtick_run_def numeral_2_eq_2)
qed

lemma least_run_3:
  "sublist [backtick, backtick] text \<Longrightarrow> \<not> sublist [backtick, backtick, backtick] text
   \<Longrightarrow> shortest_free_backtick_run text = [backtick, backtick, backtick]"
proof -
  assume a: "sublist [backtick, backtick] text" and b: "\<not> sublist [backtick, backtick, backtick] text"
  from a have a1: "sublist [backtick] text"
    using sublist_shorter_run [of 1 backtick "text"] by simp
  have "(LEAST k. \<not> sublist (replicate k backtick) text) = 3"
  proof (rule Least_equality)
    show "\<not> sublist (replicate 3 backtick) text" using b by (simp add: numeral_3_eq_3)
  next
    fix y assume n: "\<not> sublist (replicate y backtick) text"
    have "y \<noteq> 0" using n by (cases y) auto
    moreover have "y \<noteq> 1" using n a1 by auto
    moreover have "y \<noteq> 2" using n a by (auto simp: numeral_2_eq_2)
    ultimately show "3 \<le> y" by simp
  qed
  then show ?thesis by (simp add: shortest_free_backtick_run_def numeral_3_eq_3)
qed

text \<open>
  C7, as the code has it. For a \<^verbatim>\<open>code\<close> element without a \<^verbatim>\<open>pre\<close> ancestor whose text
  does not contain three backticks in a row, the rule wraps the text in the shortest
  backtick run that does not occur in it, of length 1, 2 or 3: two backticks when the
  text contains a backtick but no two in a row, three when it contains two in a row.
\<close>

theorem codeRule_shortest_fence:
  assumes "Length (ParentsFiltered selec ''pre'') = 0"
    and "\<not> sublist [backtick, backtick, backtick] (inline_code_text L T selec)"
  shows "codeRule L T content selec opt
           = Some (shortest_free_backtick_run (inline_code_text L T selec)
                   @ inline_code_text L T selec
                   @ shortest_free_backtick_run (inline_code_text L T selec))
         \<and> length (shortest_free_backtick_run (inline_code_text L T selec)) \<in> {1, 2, 3}
         \<and> (sublist [backtick] (inline_code_text L T selec)
              \<and> \<not> sublist [backtick, backtick] (inline_code_text L T selec)
            \<longrightarrow> shortest_free_backtick_run (inline_code_text L T selec) = [backtick, backtick])
         \<and> (sublist [backtick, backtick] (inline_code_text L T selec)
            \<longrightarrow> shortest_free_backtick_run (inline_code_text L T selec) = [backtick, backtick, backtick])"
proof -
  let ?text = "inline_code_text L T selec"
  consider (one) "\<not> sublist [backtick] ?text"
    | (two) "sublist [backtick] ?text" "\<not> sublist [backtick, backtick] ?text"
    | (three) "sublist [backtick] ?text" "sublist [backtick, backtick] ?text"
    by blast
  then show ?thesis
  proof cases
    case one
    then have "\<not> sublist [backtick, backtick] ?text"
      using sublist_shorter_run [of 1 backtick ?text] by auto
    with one assms(1) show ?thesis
      by (simp add: least_run_1 codeRule_def Contains_sublist String_def inline_code_text_def [symmetric])
  next
    case two
    with assms(1) show ?thesis
      by (simp add: least_run_2 codeRule_def Contains_sublist String_def inline_code_text_def [symmetric])
  next
    case three
    with assms show ?thesis
      by (simp add: least_run_3 codeRule_def Contains_sublist String_def inline_code_text_def [symmetric])
  qed
qed


lemmas codeRule_eval =
  codeRule_def inline_code_text_def collect_Nodes_def ParentsFiltered_def getParentsNodes_def
  ancestor_paths_def mapNodes_def match_tag_def is_element_def Length_def isGutter_def
  ToLower_def isASCII_def toLower_char_def blockish_def HasPrefix_def String_def
  example_inline_code_def

text \<open>C7 on two examples: a text with one backtick and a text with two in a row.\<close>

theorem codeRule_shortest_fence_witness:
  "codeRule example_lower id [] (example_inline_code ''a`b'') example_options = Some ''``a`b``''
   \<and> shortest_free_backtick_run (inline_code_text example_lower id (example_inline_code ''a`b'')) = ''``''
   \<and> codeRule example_lower id [] (example_inline_code ''a``b'') example_options = Some ''```a``b```''
   \<and> shortest_free_backtick_run (inline_code_text example_lower id (example_inline_code ''a``b'')) = ''```''"
proof -
  have pre: "Length (ParentsFiltered (example_inline_code t) ''pre'') = 0" for t
    by (simp add: codeRule_eval)
  have t1: "inline_code_text example_lower id (example_inline_code ''a`b'') = ''a`b''"
    by (simp add: codeRule_eval)
  have t2: "inline_code_text example_lower id (example_inline_code ''a``b'') = ''a``b''"
    by (simp add: codeRule_eval)
  have s1: "sublist ''`'' ''a`b''" "\<not> sublist ''``'' ''a`b''" "\<not> sublist ''```'' ''a`b''"
    by (simp_all add: Contains_sublist [symmetric] HasPrefix_def)
  have s2: "sublist ''``'' ''a``b''" "\<not> sublist ''```'' ''a``b''"
    by (simp_all add: Contains_sublist [symmetric] HasPrefix_def)
  from codeRule_shortest_fence [of "example_inline_code ''a`b''" example_lower id "[]" example_options]
  have "codeRule example_lower id [] (example_inline_code ''a`b'') example_options = Some ''``a`b``''
        \<and> shortest_free_backtick_run (inline_code_text example_lower id (example_inline_code ''a`b'')) = ''``''"
    using pre s1 by (simp add: t1)
  moreover
  from codeRule_shortest_fence [of "example_inline_code ''a``b''" example_lower id "[]" example_options]
  have "codeRule example_lower id [] (example_inline_code ''a``b'') example_options = Some ''```a``b```''
        \<and> shortest_free_backtick_run (inline_code_text example_lower id (example_inline_code ''a``b'')) = ''```''"
    using pre s2 by (simp add: t2)
  ultimately show ?thesis by simp
qed

text \<open>
  C7 as it is stated fails on a text of three backticks: no run of length 1, 2 or 3 is
  absent from the text, and the rule wraps it in three backticks, which occur in it.
\<close>

theorem codeRule_triple_backtick_collides:
  "inline_code_text example_lower id (example_inline_code ''```'') = ''```''
   \<and> codeRule example_lower id [] (example_inline_code ''```'') example_options = Some (''```'' @ ''```'' @ ''```'')
   \<and> Contains (inline_code_text example_lower id (example_inline_code ''```'')) ''```''"
  by (simp add: codeRule_eval)





end
